theory Spec2Isabelle
  imports Main
begin

section \<open>operator-index.py: building and pushing OLM catalog index images\<close>

text \<open>
  A shallow embedding of \<^verbatim>\<open>operator-index.py\<close>. Python strings are HOL strings; only
  equality, concatenation, \<^verbatim>\<open>endswith\<close> and the quoting rules of
  \<^verbatim>\<open>shlex.split\<close> are used on them. Everything the script asks
  of its host (subprocesses, the file system, the network) is answered by a \<open>host\<close> value,
  and everything the script does to its host is recorded, in order, in a trace of events.
  Logging and printing of subprocess output are not modelled.
\<close>

subsection \<open>Settings\<close>

text \<open>The classes \<^verbatim>\<open>OperatorBundle\<close>, \<^verbatim>\<open>OperatorIndex\<close> and
  \<^verbatim>\<open>OperatorIndexSettings\<close>; every field is a string that the settings file supplied.\<close>

record OperatorBundle =
  name :: string
  img :: string
  tag :: string

record OperatorIndex =
  img :: string
  tag :: string

record OperatorIndexSettings =
  bundles :: "OperatorBundle list"
  index :: OperatorIndex

subsection \<open>String helpers\<close>

text \<open>\<^verbatim>\<open>sep.join(xs)\<close>\<close>

fun join :: "string \<Rightarrow> string list \<Rightarrow> string" where
  "join sep [] = []"
| "join sep [x] = x"
| "join sep (x # y # ys) = x @ sep @ join sep (y # ys)"

text \<open>\<^verbatim>\<open>s.endswith(suffix)\<close>\<close>

definition endswith :: "string \<Rightarrow> string \<Rightarrow> bool" where
  "endswith s suffix = (drop (length s - length suffix) s = suffix)"

subsection \<open>The host, events and errors\<close>

text \<open>
  An event is a subprocess started by \<^verbatim>\<open>shell\<close> (with the command line as passed to
  it), or a call of \<^verbatim>\<open>install_opm\<close> (with the requested version).
\<close>

datatype event = Run string | Install_opm string

type_synonym trace = "event list"

text \<open>
  The host answers may depend on everything the run did before, so each takes the trace so
  far. \<open>run_cmd\<close> gives the output lines of a command, already decoded and right-stripped
  as \<^verbatim>\<open>utf8ify\<close> leaves them, and its exit status; \<open>islink\<close> is
  \<^verbatim>\<open>os.path.islink\<close>; \<open>install_ok\<close> tells whether \<^verbatim>\<open>install_opm\<close>, which
  only touches the network and the file system, returns without raising. A command
  line that \<^verbatim>\<open>shlex.split\<close> accepts is taken to start: an exception raised while the
  process is spawned is outside the model, and so is a settings file that cannot be loaded.
\<close>

record host =
  run_cmd :: "trace \<Rightarrow> string \<Rightarrow> string list \<times> int"
  islink :: "trace \<Rightarrow> string \<Rightarrow> bool"
  install_ok :: "trace \<Rightarrow> string \<Rightarrow> bool"

text \<open>
  \<open>RuntimeError\<close> carries its message; \<open>SystemExit\<close> is \<^verbatim>\<open>exit(ret)\<close> in
  \<^verbatim>\<open>shell\<close>; \<open>ValueError\<close>, with its message, is what \<^verbatim>\<open>shlex.split\<close> raises in
  \<^verbatim>\<open>shell\<close>; \<open>InstallFailed\<close> stands for any exception that escapes
  \<^verbatim>\<open>install_opm\<close>.
\<close>

datatype error = RuntimeError string | SystemExit int | ValueError string | InstallFailed

definition NoRuntimeFound :: error where
  "NoRuntimeFound = RuntimeError ''Unable to identify a container runtime!''"

definition ImageNotFound :: error where
  "ImageNotFound = RuntimeError ''Unable to find the appropriate image to push.''"

text \<open>A computation takes the trace so far and returns an error or a value, and the
  extended trace.\<close>

type_synonym 'a action = "trace \<Rightarrow> (error + 'a) \<times> trace"

subsection \<open>\<^verbatim>\<open>shell\<close>\<close>

text \<open>
  \<^verbatim>\<open>shell\<close> passes the command line through \<^verbatim>\<open>shlex.split\<close> (POSIX mode, no
  comments) before it starts the process. The split raises \<open>ValueError\<close> when the line
  ends inside a quotation or right after an escaping backslash. Only the quoting state of
  the lexer decides this: outside quotes a backslash escapes the next character and a
  quote opens a quotation; inside single quotes only the single quote is special; inside
  double quotes the double quote closes and a backslash escapes the next character.
\<close>

datatype shlex_state =
  Unquoted | Single_quoted | Double_quoted | Escape_unquoted | Escape_double_quoted

fun shlex_step :: "shlex_state \<Rightarrow> char \<Rightarrow> shlex_state" where
  "shlex_step Unquoted c =
     (if c = CHR 0x5C then Escape_unquoted
      else if c = CHR 0x27 then Single_quoted
      else if c = CHR 0x22 then Double_quoted
      else Unquoted)"
| "shlex_step Single_quoted c = (if c = CHR 0x27 then Unquoted else Single_quoted)"
| "shlex_step Double_quoted c =
     (if c = CHR 0x22 then Unquoted
      else if c = CHR 0x5C then Escape_double_quoted
      else Double_quoted)"
| "shlex_step Escape_unquoted c = Unquoted"
| "shlex_step Escape_double_quoted c = Double_quoted"

text \<open>The message of the \<open>ValueError\<close> that \<^verbatim>\<open>shlex.split(cmd)\<close> raises, if it
  raises.\<close>

definition shlex_error :: "string \<Rightarrow> string option" where
  "shlex_error cmd =
     (case foldl shlex_step Unquoted cmd of
        Unquoted \<Rightarrow> None
      | Single_quoted \<Rightarrow> Some ''No closing quotation''
      | Double_quoted \<Rightarrow> Some ''No closing quotation''
      | Escape_unquoted \<Rightarrow> Some ''No escaped character''
      | Escape_double_quoted \<Rightarrow> Some ''No escaped character'')"

text \<open>
  \<^verbatim>\<open>shell\<close> is a generator function: calling it only creates a generator object and
  runs nothing. When the generator is first advanced the command line is split and the
  subprocess is started, and the exit status is looked at once the output is exhausted.
\<close>

datatype generator = Generator string bool

definition shell :: "string \<Rightarrow> bool \<Rightarrow> generator" where
  "shell cmd fail = Generator cmd fail"

text \<open>\<^verbatim>\<open>for line in g: ...\<close> run to exhaustion: the lines that the loop body sees.\<close>

fun for_lines :: "host \<Rightarrow> generator \<Rightarrow> (string list) action" where
  "for_lines h (Generator cmd fail) tr =
     (case shlex_error cmd of
        Some message \<Rightarrow> (Inl (ValueError message), tr)
      | None \<Rightarrow>
          (let (lines, ret) = run_cmd h tr cmd;
               tr' = tr @ [Run cmd]
           in if fail \<and> ret \<noteq> 0 then (Inl (SystemExit ret), tr') else (Inr lines, tr')))"

text \<open>A loop over commands, each run with \<^verbatim>\<open>for line in shell(cmd): print(line)\<close>.\<close>

fun run_each :: "host \<Rightarrow> string list \<Rightarrow> unit action" where
  "run_each h [] tr = (Inr (), tr)"
| "run_each h (cmd # cmds) tr =
     (case for_lines h (shell cmd True) tr of
        (Inl e, tr') \<Rightarrow> (Inl e, tr')
      | (Inr lines, tr') \<Rightarrow> run_each h cmds tr')"

subsection \<open>\<^verbatim>\<open>OperatorIndexSettings._determine_runtime\<close>\<close>

text \<open>\<^verbatim>\<open>for line in ...: if line.endswith(suffix) and not os.path.islink(line): return\<close>:
  whether the loop returns.\<close>

fun accepted :: "host \<Rightarrow> trace \<Rightarrow> string \<Rightarrow> string list \<Rightarrow> bool" where
  "accepted h tr suffix [] = False"
| "accepted h tr suffix (line # rest) =
     (if endswith line suffix \<and> \<not> islink h tr line then True
      else accepted h tr suffix rest)"

definition determine_runtime :: "host \<Rightarrow> string action" where
  "determine_runtime h tr =
     (case for_lines h (shell ''which docker'' False) tr of
        (Inl e, tr1) \<Rightarrow> (Inl e, tr1)
      | (Inr lines1, tr1) \<Rightarrow>
          if accepted h tr1 ''/docker'' lines1 then (Inr ''docker'', tr1)
          else
            (case for_lines h (shell ''which podman'' False) tr1 of
               (Inl e, tr2) \<Rightarrow> (Inl e, tr2)
             | (Inr lines2, tr2) \<Rightarrow>
                 if accepted h tr2 ''/podman'' lines2 then (Inr ''podman'', tr2)
                 else (Inl (RuntimeError ''Unable to identify a container runtime!''), tr2)))"

subsection \<open>\<^verbatim>\<open>OperatorIndexSettings.generate_command_line\<close>\<close>

definition generate_command_line :: "host \<Rightarrow> OperatorIndexSettings \<Rightarrow> string action" where
  "generate_command_line h settings tr =
     (let bundles_arg = join '','' (map (\<lambda>bundle. join '':'' [OperatorBundle.img bundle, OperatorBundle.tag bundle])
                                  (bundles settings));
          index_arg = OperatorIndex.img (index settings) @ '':'' @ OperatorIndex.tag (index settings)
      in case determine_runtime h tr of
           (Inl e, tr') \<Rightarrow> (Inl e, tr')
         | (Inr runtime, tr') \<Rightarrow>
             (Inr ('' index add --build-tool '' @ runtime @ '' --bundles '' @ bundles_arg
                   @ '' --tag '' @ index_arg), tr'))"

subsection \<open>\<^verbatim>\<open>install_opm\<close> and \<^verbatim>\<open>do_build\<close>\<close>

definition install_opm :: "host \<Rightarrow> string \<Rightarrow> unit action" where
  "install_opm h version tr =
     (if install_ok h tr version then (Inr (), tr @ [Install_opm version])
      else (Inl InstallFailed, tr @ [Install_opm version]))"

text \<open>\<open>opm_path\<close> is \<^verbatim>\<open>config["opm_path"]\<close>; the settings are those that
  \<^verbatim>\<open>load_settings\<close> returns.\<close>

definition do_build ::
  "host \<Rightarrow> string \<Rightarrow> OperatorIndexSettings \<Rightarrow> string option \<Rightarrow> string \<Rightarrow> unit action" where
  "do_build h opm_path settings tag_extension opm_version tr =
     (case install_opm h opm_version tr of
        (Inl e, tr1) \<Rightarrow> (Inl e, tr1)
      | (Inr u, tr1) \<Rightarrow>
          (case generate_command_line h settings tr1 of
             (Inl e, tr2) \<Rightarrow> (Inl e, tr2)
           | (Inr args, tr2) \<Rightarrow>
               (let build_cmd = opm_path @ args;
                    build_cmd = (case tag_extension of
                                   None \<Rightarrow> build_cmd
                                 | Some ext \<Rightarrow> build_cmd @ ''-'' @ ext)
                in case for_lines h (shell build_cmd True) tr2 of
                     (Inl e, tr3) \<Rightarrow> (Inl e, tr3)
                   | (Inr lines, tr3) \<Rightarrow> (Inr (), tr3))))"

subsection \<open>\<^verbatim>\<open>push\<close>\<close>

text \<open>\<^verbatim>\<open>for line in images: if line == target: ...; break\<close>: whether the body of the
  \<^verbatim>\<open>if\<close> is reached.\<close>

fun line_found :: "string \<Rightarrow> string list \<Rightarrow> bool" where
  "line_found target [] = False"
| "line_found target (line # rest) = (if line = target then True else line_found target rest)"

text \<open>
  The two searches of \<^verbatim>\<open>push\<close> through the local images: first for the tag with the
  extension, then, if that did not set \<^verbatim>\<open>found_image\<close>, for the tag as configured.
  The result is \<^verbatim>\<open>(found_image, built_tag)\<close> as they stand after both loops.
\<close>

definition push_find_image :: "string \<Rightarrow> string option \<Rightarrow> string list \<Rightarrow> bool \<times> string" where
  "push_find_image built_tag tag_extension images =
     (let (found_image, built_tag) =
            (case tag_extension of
               None \<Rightarrow> (False, built_tag)
             | Some ext \<Rightarrow>
                 if line_found (built_tag @ ''-'' @ ext) images
                 then (True, built_tag @ ''-'' @ ext)
                 else (False, built_tag))
      in if \<not> found_image then (line_found built_tag images, built_tag)
         else (found_image, built_tag))"

text \<open>
  What \<^verbatim>\<open>push\<close> does with the outcome of the search: build when nothing was found and
  building is allowed, raise when it is not allowed, and otherwise adopt the extended tag
  when the extension is a non-empty string and the tag found does not end with it (an
  empty extension is false in the \<^verbatim>\<open>elif\<close>). The result is \<^verbatim>\<open>built_tag\<close>. In
  the retag branch the source calls \<^verbatim>\<open>shell(...)\<close> as a statement: the generator is
  created and dropped, never advanced.
\<close>

definition push_build_or_retag ::
  "host \<Rightarrow> string \<Rightarrow> OperatorIndexSettings \<Rightarrow> string \<Rightarrow> string option \<Rightarrow> bool \<Rightarrow> bool \<Rightarrow> string
     \<Rightarrow> string action" where
  "push_build_or_retag h opm_path settings runtime tag_extension build found_image built_tag tr =
     (if \<not> found_image then
        (if build then
           (case do_build h opm_path settings tag_extension ''latest'' tr of
              (Inl e, tr') \<Rightarrow> (Inl e, tr')
            | (Inr u, tr') \<Rightarrow>
                (Inr (case tag_extension of
                        None \<Rightarrow> built_tag
                      | Some ext \<Rightarrow> built_tag @ ''-'' @ ext), tr'))
         else (Inl (RuntimeError ''Unable to find the appropriate image to push.''), tr))
      else
        (case tag_extension of
           None \<Rightarrow> (Inr built_tag, tr)
         | Some ext \<Rightarrow>
             if ext \<noteq> [] \<and> \<not> endswith built_tag (''-'' @ ext) then
               (let dropped = shell (runtime @ '' tag '' @ built_tag @ '' '' @ built_tag
                                     @ ''-'' @ ext) True
                in (Inr (built_tag @ ''-'' @ ext), tr))
             else (Inr built_tag, tr)))"

text \<open>The extra tags, the tag commands and the push commands, as the three list
  comprehensions build them.\<close>

definition extra_tags :: "OperatorIndexSettings \<Rightarrow> string list \<Rightarrow> string list" where
  "extra_tags settings extra_tag =
     map (\<lambda>t. OperatorIndex.img (index settings) @ '':'' @ t) extra_tag"

definition tag_cmds :: "string \<Rightarrow> string \<Rightarrow> string list \<Rightarrow> string list" where
  "tag_cmds runtime built_tag extras =
     map (\<lambda>t. runtime @ '' tag '' @ built_tag @ '' '' @ t) extras"

definition push_cmds :: "string \<Rightarrow> string \<Rightarrow> string list \<Rightarrow> string list" where
  "push_cmds runtime built_tag extras =
     map (\<lambda>t. runtime @ '' push '' @ t) (extras @ [built_tag])"

definition push_tag_and_push ::
  "host \<Rightarrow> OperatorIndexSettings \<Rightarrow> string \<Rightarrow> string list \<Rightarrow> string \<Rightarrow> unit action" where
  "push_tag_and_push h settings runtime extra_tag built_tag tr =
     (let extras = extra_tags settings extra_tag
      in case run_each h (tag_cmds runtime built_tag extras) tr of
           (Inl e, tr') \<Rightarrow> (Inl e, tr')
         | (Inr u, tr') \<Rightarrow> run_each h (push_cmds runtime built_tag extras) tr')"

definition images_cmd :: "string \<Rightarrow> string" where
  "images_cmd runtime = runtime @ '' images --format '{{.Repository}}:{{.Tag}}'' @ [CHR 0x27]"

definition push ::
  "host \<Rightarrow> string \<Rightarrow> OperatorIndexSettings \<Rightarrow> string option \<Rightarrow> string list \<Rightarrow> bool \<Rightarrow> unit action" where
  "push h opm_path settings tag_extension extra_tag build tr =
     (case determine_runtime h tr of
        (Inl e, tr1) \<Rightarrow> (Inl e, tr1)
      | (Inr runtime, tr1) \<Rightarrow>
          (let built_tag = OperatorIndex.img (index settings) @ '':''
                           @ OperatorIndex.tag (index settings)
           in case for_lines h (shell (images_cmd runtime) True) tr1 of
                (Inl e, tr2) \<Rightarrow> (Inl e, tr2)
              | (Inr images, tr2) \<Rightarrow>
                  (let (found_image, built_tag) = push_find_image built_tag tag_extension images
                   in case push_build_or_retag h opm_path settings runtime tag_extension build
                             found_image built_tag tr2 of
                        (Inl e, tr3) \<Rightarrow> (Inl e, tr3)
                      | (Inr built_tag, tr3) \<Rightarrow>
                          push_tag_and_push h settings runtime extra_tag built_tag tr3)))"

subsection \<open>Observations on traces, and hosts to run the script on\<close>

text \<open>\<^verbatim>\<open>do_build\<close> starts with \<^verbatim>\<open>install_opm\<close>, and nothing else calls it: the
  build subcommand was invoked exactly when the trace holds such an event.\<close>

fun is_install :: "event \<Rightarrow> bool" where
  "is_install (Install_opm version) = True"
| "is_install (Run cmd) = False"

definition build_invoked :: "trace \<Rightarrow> bool" where
  "build_invoked tr = list_ex is_install tr"

text \<open>
  A host on which \<^verbatim>\<open>which docker\<close> and \<^verbatim>\<open>which podman\<close> print the given lines,
  the paths in \<open>links\<close> are symbolic links, either runtime lists the given local images,
  and every other command prints nothing and exits with status 0.
\<close>

definition example_host :: "string list \<Rightarrow> string list \<Rightarrow> string list \<Rightarrow> string list \<Rightarrow> host" where
  "example_host docker_lines podman_lines links images =
     \<lparr>run_cmd = (\<lambda>tr cmd.
          if cmd = ''which docker'' then (docker_lines, if docker_lines = [] then 1 else 0)
          else if cmd = ''which podman'' then (podman_lines, if podman_lines = [] then 1 else 0)
          else if cmd = images_cmd ''docker'' \<or> cmd = images_cmd ''podman'' then (images, 0)
          else ([], 0)),
      islink = (\<lambda>tr path. path \<in> set links),
      install_ok = (\<lambda>tr version. True)\<rparr>"

text \<open>The settings of the scenarios: one bundle \<open>a:1\<close>, index \<open>idx:v1\<close>.\<close>

definition example_settings :: OperatorIndexSettings where
  "example_settings =
     \<lparr>bundles = [\<lparr>name = ''a-operator'', img = ''a'', tag = ''1''\<rparr>],
      index = \<lparr>img = ''idx'', tag = ''v1''\<rparr>\<rparr>"

text \<open>The same with an index tag that already ends with \<open>-ci\<close>.\<close>

definition suffix_settings :: OperatorIndexSettings where
  "suffix_settings =
     \<lparr>bundles = [\<lparr>name = ''a-operator'', img = ''a'', tag = ''1''\<rparr>],
      index = \<lparr>img = ''idx'', tag = ''v1-ci''\<rparr>\<rparr>"

text \<open>The docker host with the given local images, except that the commands in
  \<open>failing\<close> print one line and exit with status 1.\<close>

definition failing_host :: "string list \<Rightarrow> string list \<Rightarrow> host" where
  "failing_host images failing =
     \<lparr>run_cmd = (\<lambda>tr cmd.
          if cmd \<in> set failing then ([''denied''], 1)
          else run_cmd (example_host [''/usr/bin/docker''] [] [] images) tr cmd),
      islink = (\<lambda>tr path. False),
      install_ok = (\<lambda>tr version. True)\<rparr>"

section \<open>Basic facts\<close>

lemma line_found_iff: "line_found target images = (target \<in> set images)"
  by (induction images) auto

lemma endswith_iff: "endswith s suffix = (\<exists>p. s = p @ suffix)"
proof
  assume "endswith s suffix"
  then have "s = take (length s - length suffix) s @ suffix"
    by (metis append_take_drop_id endswith_def)
  then show "\<exists>p. s = p @ suffix" ..
next
  assume "\<exists>p. s = p @ suffix"
  then show "endswith s suffix"
    by (auto simp: endswith_def)
qed

lemma for_lines_shell:
  "for_lines h (shell cmd fail) tr =
     (case shlex_error cmd of
        Some message \<Rightarrow> (Inl (ValueError message), tr)
      | None \<Rightarrow>
          (if fail \<and> snd (run_cmd h tr cmd) \<noteq> 0
           then Inl (SystemExit (snd (run_cmd h tr cmd)))
           else Inr (fst (run_cmd h tr cmd)), tr @ [Run cmd]))"
  by (simp add: shell_def Let_def split: prod.splits option.splits)

lemma shlex_error_which [simp]:
  "shlex_error ''which docker'' = None" "shlex_error ''which podman'' = None"
  by (simp_all add: shlex_error_def)

lemma shlex_error_images [simp]:
  "shlex_error (images_cmd ''docker'') = None" "shlex_error (images_cmd ''podman'') = None"
  by (simp_all add: shlex_error_def images_cmd_def)

lemma accepted_iff:
  "accepted h tr suffix lines = (\<exists>line \<in> set lines. endswith line suffix \<and> \<not> islink h tr line)"
  by (induction lines) auto

lemma run_each_Cons:
  "run_each h (cmd # cmds) tr =
     (case shlex_error cmd of
        Some message \<Rightarrow> (Inl (ValueError message), tr)
      | None \<Rightarrow>
          if snd (run_cmd h tr cmd) \<noteq> 0
          then (Inl (SystemExit (snd (run_cmd h tr cmd))), tr @ [Run cmd])
          else run_each h cmds (tr @ [Run cmd]))"
  by (simp add: for_lines_shell split: option.splits)

lemma run_each_ok: "run_each h cmds tr = (Inr u, tr') \<Longrightarrow> tr' = tr @ map Run cmds"
proof (induction cmds arbitrary: tr)
  case Nil
  then show ?case by simp
next
  case (Cons cmd cmds)
  from Cons.prems have "run_each h cmds (tr @ [Run cmd]) = (Inr u, tr')"
    by (simp add: run_each_Cons del: run_each.simps(2) split: option.splits if_splits)
  from Cons.IH [OF this] show ?case by simp
qed

lemma run_each_trace: "\<exists>k \<le> length cmds. snd (run_each h cmds tr) = tr @ map Run (take k cmds)"
proof (induction cmds arbitrary: tr)
  case Nil
  then show ?case by simp
next
  case (Cons cmd cmds)
  show ?case
  proof (cases "shlex_error cmd = None \<and> snd (run_cmd h tr cmd) = 0")
    case True
    from Cons.IH [of "tr @ [Run cmd]"] obtain k where
      k: "k \<le> length cmds"
         "snd (run_each h cmds (tr @ [Run cmd])) = (tr @ [Run cmd]) @ map Run (take k cmds)"
      by blast
    have "snd (run_each h (cmd # cmds) tr) = tr @ map Run (take (Suc k) (cmd # cmds))"
      using True k(2) by (simp add: run_each_Cons del: run_each.simps(2))
    with k(1) show ?thesis
      by (metis Suc_le_mono length_Cons)
  next
    case False
    then have "snd (run_each h (cmd # cmds) tr) = tr @ map Run (take 0 (cmd # cmds)) \<or>
               snd (run_each h (cmd # cmds) tr) = tr @ map Run (take 1 (cmd # cmds))"
      by (auto simp: run_each_Cons simp del: run_each.simps(2) split: option.splits)
    then show ?thesis
      by (metis One_nat_def Suc_le_mono length_Cons zero_le)
  qed
qed

lemma run_each_not_RuntimeError: "fst (run_each h cmds tr) \<noteq> Inl (RuntimeError m)"
  by (induction cmds arbitrary: tr)
     (simp_all add: run_each_Cons del: run_each.simps(2) split: option.splits)

lemma run_each_append:
  "run_each h (xs @ ys) tr =
     (case run_each h xs tr of
        (Inl e, tr') \<Rightarrow> (Inl e, tr')
      | (Inr u, tr') \<Rightarrow> run_each h ys tr')"
  by (induction xs arbitrary: tr)
     (simp_all add: run_each_Cons del: run_each.simps(2) split: option.splits)

lemma run_each_all_ok:
  assumes "\<forall>i < length cmds. shlex_error (cmds ! i) = None
             \<and> snd (run_cmd h (tr @ map Run (take i cmds)) (cmds ! i)) = 0"
  shows "run_each h cmds tr = (Inr (), tr @ map Run cmds)"
  using assms
proof (induction cmds arbitrary: tr)
  case Nil
  then show ?case by simp
next
  case (Cons cmd cmds)
  from Cons.prems have first: "shlex_error cmd = None" "snd (run_cmd h tr cmd) = 0"
    by auto
  have "\<forall>i < length cmds. shlex_error (cmds ! i) = None
          \<and> snd (run_cmd h ((tr @ [Run cmd]) @ map Run (take i cmds)) (cmds ! i)) = 0"
  proof (intro allI impI)
    fix i assume "i < length cmds"
    then have "Suc i < length (cmd # cmds)" by simp
    from Cons.prems [rule_format, OF this]
    show "shlex_error (cmds ! i) = None
          \<and> snd (run_cmd h ((tr @ [Run cmd]) @ map Run (take i cmds)) (cmds ! i)) = 0"
      by simp
  qed
  from Cons.IH [OF this] first show ?case
    by (simp add: run_each_Cons del: run_each.simps(2))
qed

lemma run_each_first_failure:
  assumes "i < length cmds"
    and "\<forall>j < i. shlex_error (cmds ! j) = None
             \<and> snd (run_cmd h (tr @ map Run (take j cmds)) (cmds ! j)) = 0"
  shows "run_each h cmds tr =
     (case shlex_error (cmds ! i) of
        Some message \<Rightarrow> (Inl (ValueError message), tr @ map Run (take i cmds))
      | None \<Rightarrow>
          if snd (run_cmd h (tr @ map Run (take i cmds)) (cmds ! i)) \<noteq> 0
          then (Inl (SystemExit (snd (run_cmd h (tr @ map Run (take i cmds)) (cmds ! i)))),
                tr @ map Run (take (Suc i) cmds))
          else run_each h (drop (Suc i) cmds) (tr @ map Run (take (Suc i) cmds)))"
  using assms
proof (induction cmds arbitrary: i tr)
  case Nil
  then show ?case by simp
next
  case (Cons cmd cmds)
  show ?case
  proof (cases i)
    case 0
    then show ?thesis
      by (simp add: run_each_Cons del: run_each.simps(2) split: option.splits)
  next
    case (Suc n)
    with Cons.prems have n: "n < length cmds" by simp
    from Cons.prems(2) Suc have first: "shlex_error cmd = None" "snd (run_cmd h tr cmd) = 0"
      by auto
    have "\<forall>j < n. shlex_error (cmds ! j) = None
            \<and> snd (run_cmd h ((tr @ [Run cmd]) @ map Run (take j cmds)) (cmds ! j)) = 0"
    proof (intro allI impI)
      fix j assume "j < n"
      then have "Suc j < i" using Suc by simp
      from Cons.prems(2) [rule_format, OF this]
      show "shlex_error (cmds ! j) = None
            \<and> snd (run_cmd h ((tr @ [Run cmd]) @ map Run (take j cmds)) (cmds ! j)) = 0"
        by simp
    qed
    from Cons.IH [OF n this] first Suc show ?thesis
      by (cases "shlex_error (cmds ! n)") (simp_all add: run_each_Cons del: run_each.simps(2))
  qed
qed

lemma determine_runtime_cases:
  "determine_runtime h tr =
     (if \<exists>line \<in> set (fst (run_cmd h tr ''which docker'')).
           endswith line ''/docker'' \<and> \<not> islink h (tr @ [Run ''which docker'']) line
      then (Inr ''docker'', tr @ [Run ''which docker''])
      else if \<exists>line \<in> set (fst (run_cmd h (tr @ [Run ''which docker'']) ''which podman'')).
                endswith line ''/podman''
                \<and> \<not> islink h (tr @ [Run ''which docker'', Run ''which podman'']) line
      then (Inr ''podman'', tr @ [Run ''which docker'', Run ''which podman''])
      else (Inl NoRuntimeFound, tr @ [Run ''which docker'', Run ''which podman'']))"
  by (simp add: determine_runtime_def for_lines_shell accepted_iff NoRuntimeFound_def)

lemma determine_runtime_trace:
  "determine_runtime h tr = (x, tr1) \<Longrightarrow> \<exists>cmds. tr1 = tr @ map Run cmds"
proof -
  assume a: "determine_runtime h tr = (x, tr1)"
  have "tr1 = tr @ map Run [''which docker''] \<or> tr1 = tr @ map Run [''which docker'', ''which podman'']"
    using a by (simp add: determine_runtime_cases split: if_splits)
  then show ?thesis by blast
qed

lemma determine_runtime_runtime:
  "determine_runtime h tr = (Inr r, tr1) \<Longrightarrow> r = ''docker'' \<or> r = ''podman''"
  by (auto simp: determine_runtime_cases split: if_splits)

lemma push_tag_and_push_run_each:
  "push_tag_and_push h settings runtime extra_tag W tr =
   run_each h (tag_cmds runtime W (extra_tags settings extra_tag)
               @ push_cmds runtime W (extra_tags settings extra_tag)) tr"
  by (simp add: push_tag_and_push_def run_each_append Let_def)

lemma push_tag_and_push_trace:
  "\<exists>k \<le> 2 * length extra_tag + 1.
     snd (push_tag_and_push h settings runtime extra_tag W tr) =
     tr @ map Run (take k (tag_cmds runtime W (extra_tags settings extra_tag)
                           @ push_cmds runtime W (extra_tags settings extra_tag)))"
proof -
  let ?cs = "tag_cmds runtime W (extra_tags settings extra_tag)
             @ push_cmds runtime W (extra_tags settings extra_tag)"
  have l: "length ?cs = 2 * length extra_tag + 1"
    by (simp add: tag_cmds_def push_cmds_def extra_tags_def)
  obtain k where "k \<le> length ?cs" "snd (run_each h ?cs tr) = tr @ map Run (take k ?cs)"
    using run_each_trace by blast
  then show ?thesis
    unfolding push_tag_and_push_run_each l by blast
qed

lemma push_tag_and_push_not_RuntimeError:
  "fst (push_tag_and_push h settings runtime extra_tag W tr) \<noteq> Inl (RuntimeError m)"
  by (simp add: push_tag_and_push_run_each run_each_not_RuntimeError)

lemma push_find_image_found:
  "fst (push_find_image B ext L) = (B \<in> set L \<or> (\<exists>E. ext = Some E \<and> B @ ''-'' @ E \<in> set L))"
  by (cases ext) (auto simp: push_find_image_def line_found_iff)

lemma push_after_listing:
  assumes "determine_runtime h tr = (Inr r, tr1)"
    and "run_cmd h tr1 (images_cmd r) = (L, 0)"
  shows "push h opm_path settings ext extra build tr =
     (case push_build_or_retag h opm_path settings r ext build
             (fst (push_find_image (OperatorIndex.img (index settings) @ '':'' @ OperatorIndex.tag (index settings)) ext L))
             (snd (push_find_image (OperatorIndex.img (index settings) @ '':'' @ OperatorIndex.tag (index settings)) ext L))
             (tr1 @ [Run (images_cmd r)]) of
        (Inl e, tr3) \<Rightarrow> (Inl e, tr3)
      | (Inr W, tr3) \<Rightarrow> push_tag_and_push h settings r extra W tr3)"
proof -
  have "r = ''docker'' \<or> r = ''podman''"
    using assms(1) by (rule determine_runtime_runtime)
  then have "shlex_error (images_cmd r) = None"
    by auto
  with assms show ?thesis
    by (simp add: push_def for_lines_shell Let_def split: prod.splits)
qed

lemma push_build_or_retag_found:
  "\<exists>W. push_build_or_retag h opm_path settings r ext build True B tr = (Inr W, tr)"
  by (simp add: push_build_or_retag_def Let_def split: option.splits)

lemma do_build_trace:
  "\<exists>rest. snd (do_build h opm_path settings ext version tr) = tr @ Install_opm version # rest"
proof -
  have "\<exists>rest. snd (generate_command_line h settings t) = t @ rest" for t
    using determine_runtime_trace [of h t]
    by (cases "determine_runtime h t") (auto simp: generate_command_line_def Let_def split: sum.splits)
  then obtain rest where rest: "snd (generate_command_line h settings (tr @ [Install_opm version])) = (tr @ [Install_opm version]) @ rest"
    by blast
  obtain x t2 where g: "generate_command_line h settings (tr @ [Install_opm version]) = (x, t2)"
    by (cases "generate_command_line h settings (tr @ [Install_opm version])")
  with rest have t2: "t2 = tr @ Install_opm version # rest" by simp
  show ?thesis
    using g t2 by (cases x) (auto simp: do_build_def install_opm_def for_lines_shell Let_def split: option.splits)
qed

lemma build_invoked_append: "build_invoked (xs @ ys) = (build_invoked xs \<or> build_invoked ys)"
  by (simp add: build_invoked_def list_ex_iff) blast

lemma build_invoked_Run: "\<not> build_invoked (map Run cmds)"
  by (simp add: build_invoked_def list_ex_iff)

lemma build_invoked_Install: "build_invoked (Install_opm v # rest)"
  by (simp add: build_invoked_def)

lemmas example_run_defs =
  push_def determine_runtime_cases for_lines_shell shlex_error_def example_host_def
  images_cmd_def push_find_image_def push_build_or_retag_def endswith_def push_tag_and_push_def
  extra_tags_def tag_cmds_def push_cmds_def example_settings_def Let_def

lemma scenario_run:
  "push (example_host [''/usr/bin/docker''] [] [] [''idx:v1'']) ''/home/ci/.local/bin/opm''
     example_settings (Some ''ci'') [] build [] =
   (Inr (), [Run ''which docker'', Run (images_cmd ''docker''), Run ''docker push idx:v1-ci''])"
  by (simp add: example_run_defs)

section \<open>Tag resolution\<close>

text \<open>
  C1. For every base tag \<open>B\<close>, extension \<open>E\<close> and list of local images \<open>L\<close>: if
  \<open>B-E\<close> is an element of \<open>L\<close>, the search reports found with the tag \<open>B-E\<close>, whether or
  not \<open>B\<close> is in \<open>L\<close> as well; otherwise, if \<open>B\<close> is an element of \<open>L\<close>, it reports
  found with the tag \<open>B\<close>.
\<close>

theorem find_image_extension:
  "(B @ ''-'' @ E \<in> set L \<longrightarrow> push_find_image B (Some E) L = (True, B @ ''-'' @ E)) \<and>
   (B @ ''-'' @ E \<notin> set L \<longrightarrow> B \<in> set L \<longrightarrow> push_find_image B (Some E) L = (True, B))"
  by (simp add: push_find_image_def line_found_iff)

theorem find_image_extension_witness:
  "push_find_image ''idx:v1'' (Some ''ci'') [''idx:v1'', ''idx:v1-ci''] = (True, ''idx:v1-ci'') \<and>
   push_find_image ''idx:v1'' (Some ''ci'') [''other:v1'', ''idx:v1''] = (True, ''idx:v1'')"
  using find_image_extension [of "''idx:v1''" "''ci''" "[''idx:v1'', ''idx:v1-ci'']"]
        find_image_extension [of "''idx:v1''" "''ci''" "[''other:v1'', ''idx:v1'']"]
  by simp

text \<open>
  C6. For every base tag \<open>B\<close> and list of local images \<open>L\<close>, the search with no
  extension reports found if and only if \<open>B\<close> is an element of \<open>L\<close>, that is, some line
  equals \<open>B\<close> as a whole string, and in every case the tag it reports is \<open>B\<close>.
\<close>

theorem find_image_no_extension:
  "push_find_image B None L = (B \<in> set L, B) \<and> (B \<in> set L) = (\<exists>n < length L. L ! n = B)"
  by (simp add: push_find_image_def line_found_iff in_set_conv_nth)

section \<open>Runtime detection and the build arguments\<close>

text \<open>
  C8. Runtime detection evaluates the two candidates in a fixed order, docker first and
  then podman. A candidate is accepted only when \<^verbatim>\<open>which\<close> printed a path for it (a
  line that ends with \<open>/docker\<close>, respectively \<open>/podman\<close>) that is not a symbolic link.
  The first accepted candidate is returned and nothing more is evaluated: when docker is
  accepted, \<^verbatim>\<open>which podman\<close> is never run. When neither is accepted the detection fails
  with the error \<open>NoRuntimeFound\<close>.
\<close>

theorem determine_runtime_priority:
  "determine_runtime h tr =
     (if \<exists>line \<in> set (fst (run_cmd h tr ''which docker'')).
           endswith line ''/docker'' \<and> \<not> islink h (tr @ [Run ''which docker'']) line
      then (Inr ''docker'', tr @ [Run ''which docker''])
      else if \<exists>line \<in> set (fst (run_cmd h (tr @ [Run ''which docker'']) ''which podman'')).
                endswith line ''/podman''
                \<and> \<not> islink h (tr @ [Run ''which docker'', Run ''which podman'']) line
      then (Inr ''podman'', tr @ [Run ''which docker'', Run ''which podman''])
      else (Inl NoRuntimeFound, tr @ [Run ''which docker'', Run ''which podman'']))"
  by (rule determine_runtime_cases)

theorem determine_runtime_priority_witness:
  "determine_runtime (example_host [''/usr/bin/docker''] [''/usr/bin/podman''] [] []) [] =
     (Inr ''docker'', [Run ''which docker'']) \<and>
   determine_runtime (example_host [''/usr/bin/docker''] [''/usr/bin/podman''] [''/usr/bin/docker''] []) [] =
     (Inr ''podman'', [Run ''which docker'', Run ''which podman'']) \<and>
   determine_runtime (example_host [] [''/usr/bin/podman''] [''/usr/bin/podman''] []) [] =
     (Inl NoRuntimeFound, [Run ''which docker'', Run ''which podman''])"
  using determine_runtime_priority [of "example_host [''/usr/bin/docker''] [''/usr/bin/podman''] [] []" "[]"]
        determine_runtime_priority [of "example_host [''/usr/bin/docker''] [''/usr/bin/podman''] [''/usr/bin/docker''] []" "[]"]
        determine_runtime_priority [of "example_host [] [''/usr/bin/podman''] [''/usr/bin/podman''] []" "[]"]
  by (simp add: example_host_def endswith_def)

text \<open>
  C7. For settings with the bundle list \<open>[{img: a, tag: 1}]\<close> and the index
  \<open>{img: idx, tag: v1}\<close>, when the detected runtime is docker, the generated build
  arguments are exactly \<open>" index add --build-tool docker --bundles a:1 --tag idx:v1"\<close>,
  with the leading space.
\<close>

theorem generate_command_line_docker:
  "determine_runtime h tr = (Inr ''docker'', tr') \<Longrightarrow>
   generate_command_line h
     \<lparr>bundles = [\<lparr>name = n, img = ''a'', tag = ''1''\<rparr>], index = \<lparr>img = ''idx'', tag = ''v1''\<rparr>\<rparr> tr =
   (Inr '' index add --build-tool docker --bundles a:1 --tag idx:v1'', tr')"
  by (simp add: generate_command_line_def)

theorem generate_command_line_docker_witness:
  "determine_runtime (example_host [''/usr/bin/docker''] [] [] []) [] = (Inr ''docker'', [Run ''which docker'']) \<and>
   generate_command_line (example_host [''/usr/bin/docker''] [] [] []) example_settings [] =
   (Inr '' index add --build-tool docker --bundles a:1 --tag idx:v1'', [Run ''which docker''])"
proof -
  have d: "determine_runtime (example_host [''/usr/bin/docker''] [] [] []) [] = (Inr ''docker'', [Run ''which docker''])"
    by (simp add: determine_runtime_cases example_host_def endswith_def)
  from generate_command_line_docker [OF d, of "''a-operator''"] d show ?thesis
    by (simp add: example_settings_def)
qed


section \<open>Building or retagging\<close>

text \<open>
  The scenario with local images \<open>["idx:v1"]\<close>, index \<open>idx:v1\<close> and extension
  \<open>ci\<close>: the second search finds the plain tag, so \<^verbatim>\<open>found_image\<close> is true and the
  branch that builds or raises is not entered, whatever the build flag.
\<close>

theorem image_not_found_counterexample:
  "fst (push (example_host [''/usr/bin/docker''] [] [] [''idx:v1'']) ''/home/ci/.local/bin/opm''
          example_settings (Some ''ci'') [] False []) \<noteq> Inl ImageNotFound"
  by (simp add: scenario_run)

theorem build_invoked_counterexample:
  "\<not> build_invoked (snd (push (example_host [''/usr/bin/docker''] [] [] [''idx:v1''])
        ''/home/ci/.local/bin/opm'' example_settings (Some ''ci'') [] True []))"
  by (simp add: scenario_run build_invoked_def)

text \<open>
  C2, as the code has it. With the build flag disabled, and runtime detection and the
  listing of local images succeeding, the orchestration fails with \<open>ImageNotFound\<close>
  exactly when neither \<open>B-E\<close> (for a requested extension \<open>E\<close>) nor the configured tag
  \<open>B\<close> is among the local images. For local images \<open>["idx:v1"]\<close>, index \<open>idx:v1\<close>
  and extension \<open>ci\<close> it therefore does not fail with \<open>ImageNotFound\<close>: the plain
  \<open>idx:v1\<close> match satisfies the extended request.
\<close>

theorem image_not_found_iff:
  assumes "determine_runtime h tr = (Inr r, tr1)"
    and "run_cmd h tr1 (images_cmd r) = (L, 0)"
    and "OperatorIndex.img (index settings) @ '':'' @ OperatorIndex.tag (index settings) = B"
  shows "(fst (push h opm_path settings ext extra False tr) = Inl ImageNotFound) =
         (\<not> (B \<in> set L \<or> (\<exists>E. ext = Some E \<and> B @ ''-'' @ E \<in> set L)))"
proof -
  note pal = push_after_listing [OF assms(1,2), of opm_path settings ext extra False,
      unfolded assms(3)]
  show ?thesis
  proof (cases "fst (push_find_image B ext L)")
  case True
  obtain W where W: "push_build_or_retag h opm_path settings r ext False True
                       (snd (push_find_image B ext L)) (tr1 @ [Run (images_cmd r)])
                     = (Inr W, tr1 @ [Run (images_cmd r)])"
    using push_build_or_retag_found by blast
  have "push h opm_path settings ext extra False tr =
        push_tag_and_push h settings r extra W (tr1 @ [Run (images_cmd r)])"
    using pal True W by simp
  then have "fst (push h opm_path settings ext extra False tr) \<noteq> Inl ImageNotFound"
    by (simp add: ImageNotFound_def push_tag_and_push_not_RuntimeError)
  with True show ?thesis
    by (simp add: push_find_image_found)
next
  case False
  then have "push h opm_path settings ext extra False tr =
             (Inl ImageNotFound, tr1 @ [Run (images_cmd r)])"
    using pal by (simp add: push_build_or_retag_def ImageNotFound_def)
  with False show ?thesis
    by (simp add: push_find_image_found)
  qed
qed

theorem image_not_found_iff_witness:
  "fst (push (example_host [''/usr/bin/docker''] [] [] [''idx:v1'']) ''/home/ci/.local/bin/opm''
          example_settings (Some ''ci'') [] False []) \<noteq> Inl ImageNotFound \<and>
   fst (push (example_host [''/usr/bin/docker''] [] [] [''other:v1'']) ''/home/ci/.local/bin/opm''
          example_settings (Some ''ci'') [] False []) = Inl ImageNotFound"
proof -
  have d: "determine_runtime (example_host [''/usr/bin/docker''] [] [] imgs) [] =
           (Inr ''docker'', [Run ''which docker''])" for imgs
    by (simp add: determine_runtime_cases example_host_def endswith_def)
  have l: "run_cmd (example_host [''/usr/bin/docker''] [] [] imgs) [Run ''which docker'']
             (images_cmd ''docker'') = (imgs, 0)" for imgs
    by (simp add: example_host_def images_cmd_def)
  have b: "OperatorIndex.img (index example_settings) @ '':'' @ OperatorIndex.tag (index example_settings)
           = ''idx:v1''"
    by (simp add: example_settings_def)
  from image_not_found_iff [OF d l b, of "[''idx:v1'']" "''/home/ci/.local/bin/opm''" "Some ''ci''" "[]"]
       image_not_found_iff [OF d l b, of "[''other:v1'']" "''/home/ci/.local/bin/opm''" "Some ''ci''" "[]"]
  show ?thesis by simp
qed

text \<open>
  C3, as the code has it. With the build flag enabled, and runtime detection and the
  listing of local images succeeding, the build subcommand is invoked exactly when neither
  \<open>B-E\<close> (for a requested extension \<open>E\<close>) nor the configured tag \<open>B\<close> is among the
  local images. For local images \<open>["idx:v1"]\<close>, index \<open>idx:v1\<close> and extension \<open>ci\<close>
  it is therefore not invoked: the plain \<open>idx:v1\<close> match satisfies the extended request.
\<close>

theorem build_invoked_iff:
  assumes "determine_runtime h [] = (Inr r, tr1)"
    and "run_cmd h tr1 (images_cmd r) = (L, 0)"
    and "OperatorIndex.img (index settings) @ '':'' @ OperatorIndex.tag (index settings) = B"
  shows "build_invoked (snd (push h opm_path settings ext extra True [])) =
         (\<not> (B \<in> set L \<or> (\<exists>E. ext = Some E \<and> B @ ''-'' @ E \<in> set L)))"
proof -
  obtain cmds where tr1: "tr1 = map Run cmds"
    using determine_runtime_trace [OF assms(1)] by auto
  let ?tr2 = "tr1 @ [Run (images_cmd r)]"
  note pal = push_after_listing [OF assms(1,2), of opm_path settings ext extra True,
      unfolded assms(3)]
  have tr2: "?tr2 = map Run (cmds @ [images_cmd r])"
    by (simp add: tr1)
  have ext_Run: "\<not> build_invoked (snd (push_tag_and_push h settings r extra W (map Run cs)))" for W cs
  proof -
    obtain k where "snd (push_tag_and_push h settings r extra W (map Run cs)) =
        map Run cs @ map Run (take k (tag_cmds r W (extra_tags settings extra)
                           @ push_cmds r W (extra_tags settings extra)))"
      using push_tag_and_push_trace by blast
    then show ?thesis
      by (simp add: build_invoked_append build_invoked_Run del: map_append)
  qed
  have ext_Install: "build_invoked (snd (push_tag_and_push h settings r extra W (t @ Install_opm v # rest)))" for W t v rest
  proof -
    obtain k where "snd (push_tag_and_push h settings r extra W (t @ Install_opm v # rest)) =
        (t @ Install_opm v # rest) @ map Run (take k (tag_cmds r W (extra_tags settings extra)
                           @ push_cmds r W (extra_tags settings extra)))"
      using push_tag_and_push_trace by blast
    then show ?thesis
      by (simp add: build_invoked_append build_invoked_Install del: map_append)
  qed
  show ?thesis
  proof (cases "fst (push_find_image B ext L)")
    case True
    obtain W where W: "push_build_or_retag h opm_path settings r ext True True
                         (snd (push_find_image B ext L)) ?tr2 = (Inr W, ?tr2)"
      using push_build_or_retag_found by blast
    have "push h opm_path settings ext extra True [] = push_tag_and_push h settings r extra W ?tr2"
      using pal True W by simp
    then have "\<not> build_invoked (snd (push h opm_path settings ext extra True []))"
      using ext_Run [of W "cmds @ [images_cmd r]"] tr2 by simp
    with True show ?thesis
      by (simp add: push_find_image_found)
  next
    case False
    obtain rest where rest:
      "snd (do_build h opm_path settings ext ''latest'' ?tr2) = ?tr2 @ Install_opm ''latest'' # rest"
      using do_build_trace by blast
    obtain x where x: "do_build h opm_path settings ext ''latest'' ?tr2 =
                       (x, ?tr2 @ Install_opm ''latest'' # rest)"
      using rest by (metis prod.collapse)
    have "build_invoked (snd (push h opm_path settings ext extra True []))"
    proof (cases x)
      case (Inl e)
      then have "snd (push h opm_path settings ext extra True []) = ?tr2 @ Install_opm ''latest'' # rest"
        using pal False x
        by (simp add: push_build_or_retag_def)
      then show ?thesis
        by (simp add: build_invoked_def list_ex_iff)
    next
      case (Inr u)
      then have "push h opm_path settings ext extra True [] =
                 push_tag_and_push h settings r extra
                   (case ext of None \<Rightarrow> snd (push_find_image B ext L)
                    | Some E \<Rightarrow> snd (push_find_image B ext L) @ ''-'' @ E)
                   (?tr2 @ Install_opm ''latest'' # rest)"
        using pal False x
        by (simp add: push_build_or_retag_def)
      then show ?thesis
        using ext_Install [of _ ?tr2 "''latest''" rest] by simp
    qed
    with False show ?thesis
      by (simp add: push_find_image_found)
  qed
qed

theorem build_invoked_iff_witness:
  "\<not> build_invoked (snd (push (example_host [''/usr/bin/docker''] [] [] [''idx:v1''])
        ''/home/ci/.local/bin/opm'' example_settings (Some ''ci'') [] True [])) \<and>
   build_invoked (snd (push (example_host [''/usr/bin/docker''] [] [] [''other:v1''])
        ''/home/ci/.local/bin/opm'' example_settings (Some ''ci'') [] True []))"
proof -
  have d: "determine_runtime (example_host [''/usr/bin/docker''] [] [] imgs) [] =
           (Inr ''docker'', [Run ''which docker''])" for imgs
    by (simp add: determine_runtime_cases example_host_def endswith_def)
  have l: "run_cmd (example_host [''/usr/bin/docker''] [] [] imgs) [Run ''which docker'']
             (images_cmd ''docker'') = (imgs, 0)" for imgs
    by (simp add: example_host_def images_cmd_def)
  have b: "OperatorIndex.img (index example_settings) @ '':'' @ OperatorIndex.tag (index example_settings)
           = ''idx:v1''"
    by (simp add: example_settings_def)
  from build_invoked_iff [OF d l b, of "[''idx:v1'']" "''/home/ci/.local/bin/opm''" "Some ''ci''" "[]"]
       build_invoked_iff [OF d l b, of "[''other:v1'']" "''/home/ci/.local/bin/opm''" "Some ''ci''" "[]"]
  show ?thesis by simp
qed

text \<open>
  C4. When the search reports found, an extension \<open>E\<close> was requested and the tag found
  does not end with it, the orchestrator is to run the retag command
  \<open>runtime tag T T-E\<close> before any push, and adopts \<open>T-E\<close> as the working tag. The
  source adopts the tag, but calls \<^verbatim>\<open>shell\<close> for the retag command without iterating over
  the generator it returns, unlike every other call of \<^verbatim>\<open>shell\<close> in the script. On local
  images \<open>["idx:v1"]\<close>, index \<open>idx:v1\<close> and extension \<open>ci\<close> the run is: runtime
  detection, the listing, and the push of \<open>idx:v1-ci\<close>; the command
  \<open>docker tag idx:v1 idx:v1-ci\<close> is never run.
\<close>

theorem retag_not_run:
  "push (example_host [''/usr/bin/docker''] [] [] [''idx:v1'']) ''/home/ci/.local/bin/opm''
     example_settings (Some ''ci'') [] True [] =
   (Inr (), [Run ''which docker'', Run (images_cmd ''docker''), Run ''docker push idx:v1-ci'']) \<and>
   Run ''docker tag idx:v1 idx:v1-ci'' \<notin> set (snd
     (push (example_host [''/usr/bin/docker''] [] [] [''idx:v1'']) ''/home/ci/.local/bin/opm''
        example_settings (Some ''ci'') [] True []))"
  by (simp add: scenario_run images_cmd_def)

text \<open>
  C10. When the configured tag \<open>B\<close> itself ends with \<open>-E\<close> for the requested extension
  \<open>E\<close> (index tag \<open>v1-ci\<close>, extension \<open>ci\<close>) and only the plain tag \<open>B\<close> is among the
  local images, the search reports found with \<open>B\<close>, the retag branch is skipped because
  its test is \<^verbatim>\<open>endswith\<close> on the tag found, and the orchestrator goes on to tag and push
  with the working tag equal to \<open>B\<close>.
\<close>

theorem suffix_tag_skips_retag:
  assumes "determine_runtime h tr = (Inr r, tr1)"
    and "run_cmd h tr1 (images_cmd r) = (L, 0)"
    and "OperatorIndex.img (index settings) @ '':'' @ OperatorIndex.tag (index settings) = B"
    and "endswith B (''-'' @ E)"
    and "B \<in> set L"
    and "B @ ''-'' @ E \<notin> set L"
  shows "push_find_image B (Some E) L = (True, B) \<and>
         push_build_or_retag h opm_path settings r (Some E) build True B tr2 = (Inr B, tr2) \<and>
         push h opm_path settings (Some E) extra build tr =
           push_tag_and_push h settings r extra B (tr1 @ [Run (images_cmd r)])"
proof -
  have f: "push_find_image B (Some E) L = (True, B)"
    using assms(5,6) by (simp add: push_find_image_def line_found_iff)
  have b: "push_build_or_retag h opm_path settings r (Some E) build True B t = (Inr B, t)" for t
    using assms(4) by (simp add: push_build_or_retag_def)
  have "push h opm_path settings (Some E) extra build tr =
           push_tag_and_push h settings r extra B (tr1 @ [Run (images_cmd r)])"
    using push_after_listing [OF assms(1,2), of opm_path settings "Some E" extra build,
        unfolded assms(3)] f b
    by simp
  with f b show ?thesis by simp
qed

theorem suffix_tag_skips_retag_witness:
  "push (example_host [''/usr/bin/docker''] [] [] [''idx:v1-ci'']) ''/home/ci/.local/bin/opm''
     suffix_settings (Some ''ci'') [] True [] =
   (Inr (), [Run ''which docker'', Run (images_cmd ''docker''), Run ''docker push idx:v1-ci''])"
proof -
  have d: "determine_runtime (example_host [''/usr/bin/docker''] [] [] [''idx:v1-ci'']) [] =
           (Inr ''docker'', [Run ''which docker''])"
    by (simp add: determine_runtime_cases example_host_def endswith_def)
  have l: "run_cmd (example_host [''/usr/bin/docker''] [] [] [''idx:v1-ci'']) [Run ''which docker'']
             (images_cmd ''docker'') = ([''idx:v1-ci''], 0)"
    by (simp add: example_host_def images_cmd_def)
  have b: "OperatorIndex.img (index suffix_settings) @ '':'' @ OperatorIndex.tag (index suffix_settings)
           = ''idx:v1-ci''"
    by (simp add: suffix_settings_def)
  have e: "endswith ''idx:v1-ci'' (''-'' @ ''ci'')"
    by (simp add: endswith_def)
  have i: "''idx:v1-ci'' \<in> set [''idx:v1-ci'']" and n: "''idx:v1-ci'' @ ''-'' @ ''ci'' \<notin> set [''idx:v1-ci'']"
    by simp_all
  from suffix_tag_skips_retag [OF d l b e i n, of "''/home/ci/.local/bin/opm''" True "[]" "[]"]
  have "push (example_host [''/usr/bin/docker''] [] [] [''idx:v1-ci'']) ''/home/ci/.local/bin/opm''
          suffix_settings (Some ''ci'') [] True [] =
        push_tag_and_push (example_host [''/usr/bin/docker''] [] [] [''idx:v1-ci'']) suffix_settings
          ''docker'' [] ''idx:v1-ci'' [Run ''which docker'', Run (images_cmd ''docker'')]"
    by simp
  then show ?thesis
    by (simp add: push_tag_and_push_def extra_tags_def tag_cmds_def push_cmds_def
          for_lines_shell shlex_error_def example_host_def images_cmd_def)
qed

section \<open>Tagging and pushing\<close>

text \<open>
  Two publish invocations that do not issue the whole push sequence. With the extra tag
  \<open>it's\<close> the first tag command has an unclosed quote: \<^verbatim>\<open>shlex.split\<close> raises before
  any process is started and nothing is pushed. With the extra tags \<open>t1, t2\<close> on a host
  where the push of \<open>idx:t1\<close> exits with status 1, the script exits after that push and
  neither \<open>idx:t2\<close> nor the working tag is pushed.
\<close>

theorem push_order_counterexample:
  "push (example_host [''/usr/bin/docker''] [] [] [''idx:v1'']) ''/home/ci/.local/bin/opm''
     example_settings None [''it's''] True [] =
   (Inl (ValueError ''No closing quotation''),
    [Run ''which docker'', Run (images_cmd ''docker'')]) \<and>
   push (failing_host [''idx:v1''] [''docker push idx:t1'']) ''/home/ci/.local/bin/opm''
     example_settings None [''t1'', ''t2''] True [] =
   (Inl (SystemExit 1),
    [Run ''which docker'', Run (images_cmd ''docker''),
     Run ''docker tag idx:v1 idx:t1'', Run ''docker tag idx:v1 idx:t2'',
     Run ''docker push idx:t1''])"
  by (simp add: example_run_defs failing_host_def)

text \<open>
  C5, as the code has it. For every list of extra tags \<open>[t1, ..., tn]\<close> and working tag
  \<open>W\<close>, the commands to issue once the working tag is settled are the tag commands for
  \<open>idx:t1, ..., idx:tn\<close> and then the pushes of \<open>idx:t1, ..., idx:tn, W\<close>, in this
  order, where \<open>idx\<close> is the index image name. When each of them can be split into words
  and exits with status 0 at its turn, the orchestrator issues exactly this sequence, every
  extra tag pushed first in the order supplied and the working tag pushed last, and
  completes. Otherwise it stops at the first command that cannot be split, which is not
  issued, or that exits with another status, which is the last one issued.
\<close>

theorem push_order:
  assumes "cmds =
      map (\<lambda>t. runtime @ '' tag '' @ W @ '' '' @ OperatorIndex.img (index settings) @ '':'' @ t) extra_tag
      @ map (\<lambda>t. runtime @ '' push '' @ OperatorIndex.img (index settings) @ '':'' @ t) extra_tag
      @ [runtime @ '' push '' @ W]"
  shows
    "((\<forall>i < length cmds. shlex_error (cmds ! i) = None
          \<and> snd (run_cmd h (tr @ map Run (take i cmds)) (cmds ! i)) = 0) \<longrightarrow>
        push_tag_and_push h settings runtime extra_tag W tr = (Inr (), tr @ map Run cmds)) \<and>
     (\<forall>i < length cmds.
        (\<forall>j < i. shlex_error (cmds ! j) = None
            \<and> snd (run_cmd h (tr @ map Run (take j cmds)) (cmds ! j)) = 0) \<longrightarrow>
        (\<forall>message. shlex_error (cmds ! i) = Some message \<longrightarrow>
           push_tag_and_push h settings runtime extra_tag W tr =
           (Inl (ValueError message), tr @ map Run (take i cmds))) \<and>
        (shlex_error (cmds ! i) = None
           \<and> snd (run_cmd h (tr @ map Run (take i cmds)) (cmds ! i)) \<noteq> 0 \<longrightarrow>
           push_tag_and_push h settings runtime extra_tag W tr =
           (Inl (SystemExit (snd (run_cmd h (tr @ map Run (take i cmds)) (cmds ! i)))),
            tr @ map Run (take (Suc i) cmds))))"
proof -
  have p: "push_tag_and_push h settings runtime extra_tag W tr = run_each h cmds tr"
    by (simp add: push_tag_and_push_run_each assms tag_cmds_def push_cmds_def extra_tags_def
          comp_def)
  show ?thesis
    unfolding p
  proof (intro conjI allI impI)
    assume "\<forall>i < length cmds. shlex_error (cmds ! i) = None
              \<and> snd (run_cmd h (tr @ map Run (take i cmds)) (cmds ! i)) = 0"
    then show "run_each h cmds tr = (Inr (), tr @ map Run cmds)"
      by (rule run_each_all_ok)
  next
    fix i message
    assume "i < length cmds"
      and "\<forall>j < i. shlex_error (cmds ! j) = None
              \<and> snd (run_cmd h (tr @ map Run (take j cmds)) (cmds ! j)) = 0"
      and "shlex_error (cmds ! i) = Some message"
    then show "run_each h cmds tr = (Inl (ValueError message), tr @ map Run (take i cmds))"
      using run_each_first_failure [of i cmds h tr] by simp
  next
    fix i
    assume "i < length cmds"
      and "\<forall>j < i. shlex_error (cmds ! j) = None
              \<and> snd (run_cmd h (tr @ map Run (take j cmds)) (cmds ! j)) = 0"
      and "shlex_error (cmds ! i) = None
              \<and> snd (run_cmd h (tr @ map Run (take i cmds)) (cmds ! i)) \<noteq> 0"
    then show "run_each h cmds tr =
        (Inl (SystemExit (snd (run_cmd h (tr @ map Run (take i cmds)) (cmds ! i)))),
         tr @ map Run (take (Suc i) cmds))"
      using run_each_first_failure [of i cmds h tr] by simp
  qed
qed

theorem push_order_witness:
  "push_tag_and_push (example_host [''/usr/bin/docker''] [] [] [''idx:v1'']) example_settings
     ''docker'' [''t1'', ''t2''] ''idx:v1'' [] =
   (Inr (), [Run ''docker tag idx:v1 idx:t1'', Run ''docker tag idx:v1 idx:t2'',
             Run ''docker push idx:t1'', Run ''docker push idx:t2'', Run ''docker push idx:v1'']) \<and>
   push_tag_and_push (failing_host [''idx:v1''] [''docker push idx:t1'']) example_settings
     ''docker'' [''t1'', ''t2''] ''idx:v1'' [] =
   (Inl (SystemExit 1), [Run ''docker tag idx:v1 idx:t1'', Run ''docker tag idx:v1 idx:t2'',
                         Run ''docker push idx:t1'']) \<and>
   push_tag_and_push (example_host [''/usr/bin/docker''] [] [] [''idx:v1'']) example_settings
     ''docker'' [''it's''] ''idx:v1'' [] =
   (Inl (ValueError ''No closing quotation''), [])"
proof -
  let ?cs = "[''docker tag idx:v1 idx:t1'', ''docker tag idx:v1 idx:t2'',
              ''docker push idx:t1'', ''docker push idx:t2'', ''docker push idx:v1'']"
  let ?qs = "[''docker tag idx:v1 idx:it's'', ''docker push idx:it's'', ''docker push idx:v1'']"
  let ?H = "example_host [''/usr/bin/docker''] [] [] [''idx:v1'']"
  let ?F = "failing_host [''idx:v1''] [''docker push idx:t1'']"
  have cs: "?cs =
      map (\<lambda>t. ''docker'' @ '' tag '' @ ''idx:v1'' @ '' '' @ OperatorIndex.img (index example_settings) @ '':'' @ t) [''t1'', ''t2'']
      @ map (\<lambda>t. ''docker'' @ '' push '' @ OperatorIndex.img (index example_settings) @ '':'' @ t) [''t1'', ''t2'']
      @ [''docker'' @ '' push '' @ ''idx:v1'']"
    by (simp add: example_settings_def)
  have qs: "?qs =
      map (\<lambda>t. ''docker'' @ '' tag '' @ ''idx:v1'' @ '' '' @ OperatorIndex.img (index example_settings) @ '':'' @ t) [''it's'']
      @ map (\<lambda>t. ''docker'' @ '' push '' @ OperatorIndex.img (index example_settings) @ '':'' @ t) [''it's'']
      @ [''docker'' @ '' push '' @ ''idx:v1'']"
    by (simp add: example_settings_def)
  have all_ok: "\<forall>c \<in> set ?cs. shlex_error c = None \<and> snd (run_cmd ?H t c) = 0" for t
    by (simp add: shlex_error_def example_host_def images_cmd_def)
  have "\<forall>i < length ?cs. shlex_error (?cs ! i) = None
          \<and> snd (run_cmd ?H ([] @ map Run (take i ?cs)) (?cs ! i)) = 0"
    using all_ok nth_mem by blast
  with push_order [OF cs, of ?H "[]"]
  have first: "push_tag_and_push ?H example_settings ''docker'' [''t1'', ''t2''] ''idx:v1'' [] =
               (Inr (), [] @ map Run ?cs)"
    by blast
  have tags_ok: "\<forall>j < 2. shlex_error (?cs ! j) = None
          \<and> snd (run_cmd ?F ([] @ map Run (take j ?cs)) (?cs ! j)) = 0"
    by (simp add: less_Suc_eq numeral_2_eq_2 shlex_error_def failing_host_def example_host_def
          images_cmd_def)
  have push_fails: "shlex_error (?cs ! 2) = None
          \<and> snd (run_cmd ?F ([] @ map Run (take 2 ?cs)) (?cs ! 2)) \<noteq> 0"
    by (simp add: shlex_error_def failing_host_def)
  have "(2::nat) < length ?cs" by simp
  with push_order [OF cs, of ?F "[]"] tags_ok push_fails
  have "push_tag_and_push ?F example_settings ''docker'' [''t1'', ''t2''] ''idx:v1'' [] =
        (Inl (SystemExit (snd (run_cmd ?F ([] @ map Run (take 2 ?cs)) (?cs ! 2)))),
         [] @ map Run (take (Suc 2) ?cs))"
    by blast
  then have second: "push_tag_and_push ?F example_settings ''docker'' [''t1'', ''t2''] ''idx:v1'' [] =
        (Inl (SystemExit 1), [Run ''docker tag idx:v1 idx:t1'', Run ''docker tag idx:v1 idx:t2'',
                              Run ''docker push idx:t1''])"
    by (simp add: failing_host_def)
  have quote: "shlex_error (?qs ! 0) = Some ''No closing quotation''"
    by (simp add: shlex_error_def)
  have "(0::nat) < length ?qs" by simp
  with push_order [OF qs, of ?H "[]"] quote
  have "push_tag_and_push ?H example_settings ''docker'' [''it's''] ''idx:v1'' [] =
        (Inl (ValueError ''No closing quotation''), [] @ map Run (take 0 ?qs))"
    by blast
  with first second show ?thesis by simp
qed

text \<open>
  A publish invocation whose extra tag renders to the working tag: with index \<open>idx:v1\<close>
  present locally, no extension and the extra tag \<open>v1\<close>, the working tag is \<open>idx:v1\<close>
  and the extra tags are \<open>["idx:v1"]\<close>; the image is tagged onto itself and pushed twice.
\<close>

theorem extra_tags_duplicate_counterexample:
  "push_find_image ''idx:v1'' None [''idx:v1''] = (True, ''idx:v1'') \<and>
   push_build_or_retag (example_host [''/usr/bin/docker''] [] [] [''idx:v1''])
     ''/home/ci/.local/bin/opm'' example_settings ''docker'' None True True ''idx:v1''
     [Run ''which docker'', Run (images_cmd ''docker'')] =
     (Inr ''idx:v1'', [Run ''which docker'', Run (images_cmd ''docker'')]) \<and>
   ''idx:v1'' \<in> set (extra_tags example_settings [''v1'']) \<and>
   push (example_host [''/usr/bin/docker''] [] [] [''idx:v1'']) ''/home/ci/.local/bin/opm''
     example_settings None [''v1''] True [] =
   (Inr (), [Run ''which docker'', Run (images_cmd ''docker''), Run ''docker tag idx:v1 idx:v1'',
             Run ''docker push idx:v1'', Run ''docker push idx:v1''])"
  by (simp add: example_run_defs)

text \<open>
  C9, as the code has it. The extra tags are the strings \<open>idx:t\<close>, one for each bare tag
  \<open>t\<close> the caller supplied, in the order supplied, where \<open>idx\<close> is the index image
  name; nothing is removed from them. So they contain the working tag exactly when some
  supplied bare tag \<open>t\<close> makes \<open>idx:t\<close> equal to it.
\<close>

theorem extra_tags_entries:
  "length (extra_tags settings extra_tag) = length extra_tag \<and>
   (\<forall>n < length extra_tag.
      extra_tags settings extra_tag ! n = OperatorIndex.img (index settings) @ '':'' @ extra_tag ! n) \<and>
   (W \<in> set (extra_tags settings extra_tag)) =
     (\<exists>t \<in> set extra_tag. W = OperatorIndex.img (index settings) @ '':'' @ t)"
  by (auto simp: extra_tags_def)

theorem extra_tags_entries_witness:
  "extra_tags example_settings [''v1'', ''latest''] ! 1 = ''idx:latest'' \<and>
   ''idx:v1'' \<in> set (extra_tags example_settings [''v1'', ''latest''])"
proof -
  note t = extra_tags_entries [of example_settings "[''v1'', ''latest'']" "''idx:v1''"]
  from t have "\<forall>n < length [''v1'', ''latest''].
      extra_tags example_settings [''v1'', ''latest''] ! n =
        OperatorIndex.img (index example_settings) @ '':'' @ [''v1'', ''latest''] ! n"
    by blast
  then have "extra_tags example_settings [''v1'', ''latest''] ! 1 =
        OperatorIndex.img (index example_settings) @ '':'' @ [''v1'', ''latest''] ! 1"
    by simp
  moreover from t have "''idx:v1'' \<in> set (extra_tags example_settings [''v1'', ''latest''])"
    by (simp add: example_settings_def)
  ultimately show ?thesis
    by (simp add: example_settings_def)
qed

end
